theory Spec2Isabelle
  imports Complex_Main "HOL-Library.AList" "HOL-Library.Multiset"
begin

section \<open>Data model of \<^verbatim>\<open>src/f1_data.py\<close>\<close>

text \<open>
  The module turns per-lap, per-driver telemetry of one session into a list of frames on a
  common time grid. Python floats and numpy \<^verbatim>\<open>float64\<close> arrays are embedded as exact reals
  (\<^typ>\<open>real\<close>, \<^typ>\<open>real list\<close>): rounding error of the machine arithmetic is not part of
  the model. Exceptions are values of \<open>py_error\<close>; an exception that the source catches is
  a branch of the model that continues, one that it does not catch is an \<open>Inl\<close> result.
\<close>

datatype py_error = AttributeError | ValueError

text \<open>
  What \<^verbatim>\<open>lap_tel.get(name, default)\<close> can hand back before \<^verbatim>\<open>.to_numpy()\<close> is called on
  it: a column of the frame (a pandas Series), a plain numpy array, or \<^verbatim>\<open>None\<close>.
\<close>

datatype pyval = Series "real list" | NdArray "real list" | PyNone

text \<open>
  One lap's telemetry frame, column by column. The required columns are always there; the
  optional ones may be absent. The frame has as many rows as \<open>col_SessionTime\<close> has entries
  (\<^verbatim>\<open>SessionTime\<close> is already in seconds here).
\<close>

record telemetry =
  col_SessionTime :: "real list"
  col_X :: "real list"
  col_Y :: "real list"
  col_Distance :: "real list"
  col_RelativeDistance :: "real list option"
  col_Speed :: "real list option"
  col_SpeedKph :: "real list option"
  col_nGear :: "real list option"
  col_DRS :: "real list option"

text \<open>A lap: \<open>get_telemetry\<close> is \<open>None\<close> when the provider call raises.\<close>

record lap =
  LapNumber :: int
  Compound :: string
  get_telemetry :: "telemetry option"

record status_event =
  ev_Time :: real
  ev_Status :: "string option"

text \<open>
  The loaded session as the function reads it: \<open>get_driver\<close> gives the abbreviation of a
  driver number (\<open>None\<close>: the lookup raises), \<open>pick_drivers\<close> the laps of a driver
  (\<open>None\<close>: the call raises), \<open>track_status\<close> the status log (\<open>None\<close>: no such attribute),
  \<open>color_mapping\<close> the provider's driver colours, \<open>session_str\<close> is \<^verbatim>\<open>str(session)\<close>.
\<close>

record session =
  drivers :: "string list"
  get_driver :: "string \<Rightarrow> string option"
  pick_drivers :: "string \<Rightarrow> lap list option"
  track_status :: "status_event list option"
  color_mapping :: "(string \<times> string) list"
  session_str :: string

text \<open>The ten per-driver channels, the keys of \<^verbatim>\<open>parts\<close>, \<^verbatim>\<open>driver_data[code]\<close> and
  \<^verbatim>\<open>resampled_data[code]\<close>.\<close>

datatype chan = K_t | K_x | K_y | K_dist | K_rel_dist | K_lap | K_tyre | K_speed | K_gear | K_drs

type_synonym parts = "chan \<Rightarrow> real list list"
type_synonym arrays = "chan \<Rightarrow> real list"

definition all_chans :: "chan list" where
  "all_chans = [K_t, K_x, K_y, K_dist, K_rel_dist, K_lap, K_tyre, K_speed, K_gear, K_drs]"

definition FPS :: real where
  "FPS = 25"

definition DT :: real where
  "DT = 1 / FPS"

section \<open>The cache of computed payloads\<close>

datatype json = JNull | JBool bool | JNum real | JStr string
  | JArr "json list" | JObj "(string \<times> json) list"

text \<open>Python truthiness of a value that \<^verbatim>\<open>json.load\<close> returns.\<close>

fun truthy :: "json \<Rightarrow> bool" where
  "truthy JNull = False"
| "truthy (JBool b) = b"
| "truthy (JNum n) = (n \<noteq> 0)"
| "truthy (JStr s) = (s \<noteq> [])"
| "truthy (JArr xs) = (xs \<noteq> [])"
| "truthy (JObj kvs) = (kvs \<noteq> [])"

text \<open>A path of the file system: no file, a file that \<^verbatim>\<open>json.load\<close> rejects (or that cannot be
  opened), or a file that parses.\<close>

datatype cache_file = Absent | Unparsable | Parses json

definition safe_char :: "char \<Rightarrow> bool" where
  "safe_char c \<longleftrightarrow>
     c \<in> set (''ABCDEFGHIJKLMNOPQRSTUVWXYZ'' @ ''abcdefghijklmnopqrstuvwxyz'' @
                ''0123456789'' @ ''_.-'')"

definition sanitize_filename :: "string \<Rightarrow> string" where
  "sanitize_filename name = take 200 (map (\<lambda>c. if safe_char c then c else CHR ''_'') name)"

definition cached_filepath :: "string \<Rightarrow> string \<Rightarrow> string" where
  "cached_filepath event suffix =
     ''computed_data/'' @ sanitize_filename event @ ''_'' @ suffix @ ''_telemetry.json''"

definition load_cached :: "(string \<Rightarrow> cache_file) \<Rightarrow> string \<Rightarrow> string \<Rightarrow> json option" where
  "load_cached fs event suffix =
     (case fs (cached_filepath event suffix) of
        Absent \<Rightarrow> None
      | Unparsable \<Rightarrow> None
      | Parses j \<Rightarrow> Some j)"

section \<open>Lap assembly\<close>

definition df_get :: "real list option \<Rightarrow> pyval \<Rightarrow> pyval" where
  "df_get col dflt = (case col of Some a \<Rightarrow> Series a | None \<Rightarrow> dflt)"

text \<open>\<^verbatim>\<open>.to_numpy()\<close> is a method of a Series; a numpy array and \<^verbatim>\<open>None\<close> have no such
  attribute.\<close>

fun to_numpy :: "pyval \<Rightarrow> py_error + real list" where
  "to_numpy (Series a) = Inr a"
| "to_numpy (NdArray a) = Inl AttributeError"
| "to_numpy PyNone = Inl AttributeError"

definition zeros_like :: "real list \<Rightarrow> real list" where
  "zeros_like a = replicate (length a) 0"

definition full_like :: "real list \<Rightarrow> real \<Rightarrow> real list" where
  "full_like a v = replicate (length a) v"

definition df_empty :: "telemetry \<Rightarrow> bool" where
  "df_empty tel \<longleftrightarrow> col_SessionTime tel = []"

definition empty_parts :: parts where
  "empty_parts = (\<lambda>k. [])"

text \<open>
  One pass of the loop over a driver's laps (source lines 123 to 158). The state is
  \<^verbatim>\<open>parts\<close> and \<^verbatim>\<open>total_dist_so_far\<close>. \<open>gtci\<close> is \<^verbatim>\<open>get_tyre_compound_int\<close>, which lives in a
  module outside the sources at hand and is therefore a parameter.
\<close>

definition lap_step ::
  "(string \<Rightarrow> int) \<Rightarrow> parts \<times> real \<Rightarrow> lap \<Rightarrow> py_error + (parts \<times> real)" where
  "lap_step gtci st lap =
     (case st of (parts, total_dist_so_far) \<Rightarrow>
      (case get_telemetry lap of
         None \<Rightarrow> Inr (parts, total_dist_so_far)
       | Some lap_tel \<Rightarrow>
           let lap_number = LapNumber lap;
               tyre_compound_int = gtci (Compound lap)
           in if df_empty lap_tel then Inr (parts, total_dist_so_far)
              else
                let t_lap = col_SessionTime lap_tel;
                    x_lap = col_X lap_tel;
                    y_lap = col_Y lap_tel;
                    d_lap = col_Distance lap_tel
                in (case to_numpy (df_get (col_RelativeDistance lap_tel)
                                     (Series (col_Distance lap_tel))) of
                      Inl e \<Rightarrow> Inl e
                    | Inr rd_lap \<Rightarrow>
                  (case to_numpy (df_get (col_Speed lap_tel)
                                     (df_get (col_SpeedKph lap_tel) PyNone)) of
                      Inl e \<Rightarrow> Inl e
                    | Inr speed_kph_lap \<Rightarrow>
                  (case to_numpy (df_get (col_nGear lap_tel) (NdArray (zeros_like t_lap))) of
                      Inl e \<Rightarrow> Inl e
                    | Inr gear_lap \<Rightarrow>
                  (case to_numpy (df_get (col_DRS lap_tel) (NdArray (zeros_like t_lap))) of
                      Inl e \<Rightarrow> Inl e
                    | Inr drs_lap \<Rightarrow>
                      let race_d_lap = map (\<lambda>d. total_dist_so_far + d) d_lap;
                          new = (\<lambda>k. case k of
                                   K_t \<Rightarrow> t_lap | K_x \<Rightarrow> x_lap | K_y \<Rightarrow> y_lap
                                 | K_dist \<Rightarrow> race_d_lap | K_rel_dist \<Rightarrow> rd_lap
                                 | K_lap \<Rightarrow> full_like t_lap (of_int lap_number)
                                 | K_tyre \<Rightarrow> full_like t_lap (of_int tyre_compound_int)
                                 | K_speed \<Rightarrow> speed_kph_lap | K_gear \<Rightarrow> gear_lap
                                 | K_drs \<Rightarrow> drs_lap)
                      in Inr (\<lambda>k. parts k @ [new k],
                              if race_d_lap \<noteq> [] then last race_d_lap
                              else total_dist_so_far)))))))"

fun lap_loop ::
  "(string \<Rightarrow> int) \<Rightarrow> parts \<times> real \<Rightarrow> lap list \<Rightarrow> py_error + (parts \<times> real)" where
  "lap_loop gtci st [] = Inr st"
| "lap_loop gtci st (l # ls) =
     (case lap_step gtci st l of
        Inl e \<Rightarrow> Inl e
      | Inr st' \<Rightarrow> lap_loop gtci st' ls)"

text \<open>
  \<^verbatim>\<open>np.argsort\<close>: the indices that put the array in ascending order. Among equal entries the
  model keeps the original order.
\<close>

definition argsort :: "real list \<Rightarrow> nat list" where
  "argsort ts = map snd (sort_key fst (zip ts [0..<length ts]))"

text \<open>\<^verbatim>\<open>arr[order]\<close> for an index array: an index out of range raises \<^verbatim>\<open>IndexError\<close>, here
  \<open>None\<close>.\<close>

definition fancy_index :: "real list \<Rightarrow> nat list \<Rightarrow> real list option" where
  "fancy_index arr order =
     (if list_all (\<lambda>i. i < length arr) order then Some (map (\<lambda>i. arr ! i) order) else None)"

definition concat_and_sort :: "parts \<Rightarrow> nat list \<Rightarrow> chan \<Rightarrow> real list option" where
  "concat_and_sort parts order key = fancy_index (concat (parts key)) order"

text \<open>Source lines 164 to 184: \<open>None\<close> is the \<^verbatim>\<open>except\<close> branch, which skips the driver.\<close>

definition assemble :: "parts \<Rightarrow> arrays option" where
  "assemble parts =
     (let t_all = concat (parts K_t);
          order = argsort t_all
      in if list_all (\<lambda>k. concat_and_sort parts order k \<noteq> None) all_chans
         then Some (\<lambda>k. the (concat_and_sort parts order k))
         else None)"

definition driver_code :: "session \<Rightarrow> string \<Rightarrow> string" where
  "driver_code s num = (case get_driver s num of Some abbr \<Rightarrow> abbr | None \<Rightarrow> num)"

text \<open>
  The state of the loop over the drivers: \<^verbatim>\<open>driver_data\<close> (a dict, in insertion order),
  \<^verbatim>\<open>global_t_min\<close>, \<^verbatim>\<open>global_t_max\<close> and \<^verbatim>\<open>max_lap_number\<close>.
\<close>

type_synonym loop_state = "(string \<times> arrays) list \<times> real option \<times> real option \<times> int"

definition driver_step ::
  "(string \<Rightarrow> int) \<Rightarrow> session \<Rightarrow> loop_state \<Rightarrow> string \<Rightarrow> py_error + loop_state" where
  "driver_step gtci s st driver_no =
     (case st of (driver_data, global_t_min, global_t_max, max_lap_number) \<Rightarrow>
      let code = driver_code s driver_no
      in (case pick_drivers s driver_no of
            None \<Rightarrow> Inr st
          | Some laps_driver \<Rightarrow>
              if laps_driver = [] then Inr st
              else
                let max_lap_number' =
                      max max_lap_number (Max (set (map LapNumber laps_driver)))
                in (case lap_loop gtci (empty_parts, 0) laps_driver of
                      Inl e \<Rightarrow> Inl e
                    | Inr (parts, total_dist) \<Rightarrow>
                        if parts K_t = []
                        then Inr (driver_data, global_t_min, global_t_max, max_lap_number')
                        else (case assemble parts of
                                None \<Rightarrow>
                                  Inr (driver_data, global_t_min, global_t_max, max_lap_number')
                              | Some data \<Rightarrow>
                                  let t_min = Min (set (data K_t));
                                      t_max = Max (set (data K_t))
                                  in Inr (AList.update code data driver_data,
                                          Some (case global_t_min of
                                                  None \<Rightarrow> t_min | Some g \<Rightarrow> min g t_min),
                                          Some (case global_t_max of
                                                  None \<Rightarrow> t_max | Some g \<Rightarrow> max g t_max),
                                          max_lap_number')))))"

fun driver_loop ::
  "(string \<Rightarrow> int) \<Rightarrow> session \<Rightarrow> loop_state \<Rightarrow> string list \<Rightarrow> py_error + loop_state" where
  "driver_loop gtci s st [] = Inr st"
| "driver_loop gtci s st (d # ds) =
     (case driver_step gtci s st d of
        Inl e \<Rightarrow> Inl e
      | Inr st' \<Rightarrow> driver_loop gtci s st' ds)"

section \<open>Timeline and resampling\<close>

text \<open>\<^verbatim>\<open>np.arange(start, stop, step)\<close>: \<open>\<lceil>(stop - start) / step\<rceil>\<close> values \<open>start + i * step\<close>.\<close>

definition np_arange :: "real \<Rightarrow> real \<Rightarrow> real \<Rightarrow> real list" where
  "np_arange start stop step =
     map (\<lambda>i. start + real i * step) [0..<nat \<lceil>(stop - start) / step\<rceil>]"

definition build_timeline :: "real \<Rightarrow> real \<Rightarrow> real list" where
  "build_timeline global_t_min global_t_max =
     map (\<lambda>v. v - global_t_min) (np_arange global_t_min (global_t_max + DT) DT)"

text \<open>
  \<^verbatim>\<open>np.interp\<close> at one point, for ascending sample points: the segment is the last one
  whose left end is not beyond \<open>x\<close>; at a sample point the sample itself is returned.
\<close>

fun interp_seg :: "real \<Rightarrow> (real \<times> real) list \<Rightarrow> real" where
  "interp_seg x [] = 0"
| "interp_seg x [(x0, y0)] = y0"
| "interp_seg x ((x0, y0) # (x1, y1) # ps) =
     (if x < x1
      then (if x = x0 then y0 else (y1 - y0) / (x1 - x0) * (x - x0) + y0)
      else interp_seg x ((x1, y1) # ps))"

definition interp1 :: "real \<Rightarrow> real list \<Rightarrow> real list \<Rightarrow> real" where
  "interp1 x xp fp =
     (if x > last xp then last fp
      else if x < hd xp then hd fp
      else interp_seg x (zip xp fp))"

text \<open>\<^verbatim>\<open>np.interp(x, xp, fp)\<close> raises \<^verbatim>\<open>ValueError\<close> (here \<open>None\<close>) when \<open>xp\<close> is empty or
  \<open>xp\<close> and \<open>fp\<close> differ in length.\<close>

definition np_interp :: "real list \<Rightarrow> real list \<Rightarrow> real list \<Rightarrow> real list option" where
  "np_interp xs xp fp =
     (if xp = [] \<or> length xp \<noteq> length fp then None
      else Some (map (\<lambda>x. interp1 x xp fp) xs))"

definition safe_interp ::
  "real list \<Rightarrow> real list \<Rightarrow> nat list \<Rightarrow> real list \<Rightarrow> real list option" where
  "safe_interp timeline t_sorted order arr =
     (case fancy_index arr order of
        None \<Rightarrow> None
      | Some a \<Rightarrow> np_interp timeline t_sorted a)"

text \<open>Source lines 213 to 234 for one driver: \<open>None\<close> is the \<^verbatim>\<open>except\<close> branch.\<close>

definition resample_driver :: "real \<Rightarrow> real list \<Rightarrow> arrays \<Rightarrow> arrays option" where
  "resample_driver global_t_min timeline data =
     (let t = map (\<lambda>v. v - global_t_min) (data K_t);
          order = argsort t
      in (case fancy_index t order of
            None \<Rightarrow> None
          | Some t_sorted \<Rightarrow>
              if list_all (\<lambda>k. safe_interp timeline t_sorted order (data k) \<noteq> None)
                   (tl all_chans)
              then Some (\<lambda>k. if k = K_t then timeline
                              else the (safe_interp timeline t_sorted order (data k)))
              else None))"

definition resample_step ::
  "real \<Rightarrow> real list \<Rightarrow> string \<times> arrays \<Rightarrow> (string \<times> arrays) list \<Rightarrow> (string \<times> arrays) list"
  where
  "resample_step global_t_min timeline item resampled_data =
     (case resample_driver global_t_min timeline (snd item) of
        None \<Rightarrow> resampled_data
      | Some r \<Rightarrow> AList.update (fst item) r resampled_data)"

definition resample_all ::
  "real \<Rightarrow> real list \<Rightarrow> (string \<times> arrays) list \<Rightarrow> (string \<times> arrays) list" where
  "resample_all global_t_min timeline driver_data =
     fold (resample_step global_t_min timeline) driver_data []"

section \<open>Track status intervals\<close>

record status_interval =
  status :: "string option"
  start_time :: real
  end_time :: "real option"

definition status_step :: "real \<Rightarrow> status_event \<Rightarrow> status_interval list \<Rightarrow> status_interval list"
  where
  "status_step global_t_min ev formatted =
     (let seconds = ev_Time ev;
          start = seconds - global_t_min;
          formatted' = (if formatted \<noteq> []
                        then butlast formatted @ [(last formatted)\<lparr>end_time := Some start\<rparr>]
                        else formatted)
      in formatted' @ [\<lparr>status = ev_Status ev, start_time = start, end_time = None\<rparr>])"

definition format_track_statuses :: "real \<Rightarrow> status_event list option \<Rightarrow> status_interval list"
  where
  "format_track_statuses global_t_min ts =
     (case ts of
        None \<Rightarrow> []
      | Some evs \<Rightarrow> fold (status_step global_t_min) evs [])"

section \<open>Frames\<close>

text \<open>Python's \<^verbatim>\<open>round\<close>: to the nearest integer, a tie to the even one.\<close>

definition py_round :: "real \<Rightarrow> int" where
  "py_round v =
     (let f = \<lfloor>v\<rfloor>; r = v - of_int f
      in if r < 1 / 2 then f
         else if r > 1 / 2 then f + 1
         else if even f then f else f + 1)"

definition py_round_digits :: "real \<Rightarrow> nat \<Rightarrow> real" where
  "py_round_digits v n = of_int (py_round (v * 10 ^ n)) / 10 ^ n"

text \<open>A driver's entry of \<^verbatim>\<open>frame_drivers\<close> and of \<^verbatim>\<open>snapshot\<close> (there together with its
  code).\<close>

record sample =
  smp_x :: real
  smp_y :: real
  smp_dist :: real
  smp_lap :: int
  smp_rel_dist :: real
  smp_tyre :: real
  smp_speed :: real
  smp_gear :: int
  smp_drs :: int

text \<open>A driver's entry of \<^verbatim>\<open>frame_data\<close>.\<close>

record car =
  car_x :: real
  car_y :: real
  car_dist :: real
  car_lap :: int
  car_rel_dist :: real
  car_tyre :: real
  car_position :: nat
  car_speed :: real
  car_gear :: int
  car_drs :: int

record frame =
  frame_t :: real
  frame_lap :: int
  frame_drivers :: "(string \<times> car) list"

text \<open>Source lines 261 to 273: an index out of range is caught and the driver is left out
  of the frame.\<close>

definition sample_at :: "arrays \<Rightarrow> nat \<Rightarrow> sample option" where
  "sample_at d i =
     (if list_all (\<lambda>k. i < length (d k)) (tl all_chans)
      then Some \<lparr>smp_x = d K_x ! i, smp_y = d K_y ! i, smp_dist = d K_dist ! i,
                 smp_lap = py_round (d K_lap ! i), smp_rel_dist = d K_rel_dist ! i,
                 smp_tyre = d K_tyre ! i, smp_speed = d K_speed ! i,
                 smp_gear = py_round (d K_gear ! i), smp_drs = py_round (d K_drs ! i)\<rparr>
      else None)"

definition gather_step ::
  "nat \<Rightarrow> string \<times> arrays \<Rightarrow> (string \<times> sample) list \<Rightarrow> (string \<times> sample) list" where
  "gather_step i item fd =
     (case sample_at (snd item) i of
        None \<Rightarrow> fd
      | Some v \<Rightarrow> AList.update (fst item) v fd)"

definition rank_step ::
  "nat \<times> (string \<times> sample) \<Rightarrow> (string \<times> car) list \<Rightarrow> (string \<times> car) list" where
  "rank_step entry frame_data =
     (case entry of (idx, code, v) \<Rightarrow>
        AList.update code
          \<lparr>car_x = smp_x v, car_y = smp_y v, car_dist = smp_dist v, car_lap = smp_lap v,
           car_rel_dist = py_round_digits (smp_rel_dist v) 4, car_tyre = smp_tyre v,
           car_position = idx + 1, car_speed = smp_speed v, car_gear = smp_gear v,
           car_drs = smp_drs v\<rparr>
          frame_data)"

text \<open>\<^verbatim>\<open>sorted(..., key=dist, reverse=True)\<close> is stable: descending distance, equal distances
  in the order of \<^verbatim>\<open>frame_drivers\<close>.\<close>

definition snapshot_of :: "(string \<times> sample) list \<Rightarrow> (string \<times> sample) list" where
  "snapshot_of fd = sort_key (\<lambda>r. - smp_dist (snd r)) fd"

definition build_frame :: "(string \<times> arrays) list \<Rightarrow> nat \<times> real \<Rightarrow> frame option" where
  "build_frame resampled_data tick =
     (case tick of (i, t) \<Rightarrow>
      let fd = fold (gather_step i) resampled_data []
      in if fd = [] then None
         else
           let snapshot = snapshot_of fd;
               leader = hd snapshot;
               leader_lap = smp_lap (snd leader);
               frame_data = fold rank_step (enumerate 0 snapshot) []
           in Some \<lparr>frame_t = t, frame_lap = leader_lap, frame_drivers = frame_data\<rparr>)"

definition build_frames :: "(string \<times> arrays) list \<Rightarrow> real list \<Rightarrow> frame list" where
  "build_frames resampled_data timeline =
     List.map_filter (build_frame resampled_data) (enumerate 0 timeline)"

section \<open>Driver colours\<close>

definition hex_digit :: "char \<Rightarrow> int option" where
  "hex_digit c =
     map_of (zip ''0123456789abcdef'' [0..16] @ zip ''ABCDEF'' [10..16]) c"

definition py_space :: "char \<Rightarrow> bool" where
  "py_space c \<longleftrightarrow> c \<in> set [CHR '' '', CHR 0x09, CHR 0x0A, CHR 0x0B, CHR 0x0C, CHR 0x0D]"

definition py_strip :: "string \<Rightarrow> string" where
  "py_strip s = rev (dropWhile py_space (rev (dropWhile py_space s)))"

text \<open>
  \<^verbatim>\<open>int(s, 16)\<close> for the two-character slices taken below (ASCII): white space around the
  literal and one sign in front of it are accepted, anything else that is not a hex digit
  raises \<^verbatim>\<open>ValueError\<close>.
\<close>

definition int16 :: "string \<Rightarrow> py_error + int" where
  "int16 s =
     (case py_strip s of
        [a] \<Rightarrow> (case hex_digit a of Some d \<Rightarrow> Inr d | None \<Rightarrow> Inl ValueError)
      | [a, b] \<Rightarrow>
          (case hex_digit b of
             None \<Rightarrow> Inl ValueError
           | Some d0 \<Rightarrow>
               if a = CHR ''+'' then Inr d0
               else if a = CHR ''-'' then Inr (- d0)
               else (case hex_digit a of
                       Some d1 \<Rightarrow> Inr (16 * d1 + d0)
                     | None \<Rightarrow> Inl ValueError))
      | _ \<Rightarrow> Inl ValueError)"

definition hex_to_rgb :: "string \<Rightarrow> py_error + (int \<times> int \<times> int)" where
  "hex_to_rgb hex_color =
     (let h = dropWhile (\<lambda>c. c = CHR ''#'') hex_color
      in (case int16 (take 2 h) of
            Inl e \<Rightarrow> Inl e
          | Inr r \<Rightarrow>
        (case int16 (take 2 (drop 2 h)) of
            Inl e \<Rightarrow> Inl e
          | Inr g \<Rightarrow>
        (case int16 (take 2 (drop 4 h)) of
            Inl e \<Rightarrow> Inl e
          | Inr b \<Rightarrow> Inr (r, g, b)))))"

fun colors_loop ::
  "(string \<times> string) list \<Rightarrow> (string \<times> int \<times> int \<times> int) list \<Rightarrow>
   py_error + (string \<times> int \<times> int \<times> int) list" where
  "colors_loop [] rgb_colors = Inr rgb_colors"
| "colors_loop ((driver, hex_color) # rest) rgb_colors =
     (case hex_to_rgb hex_color of
        Inl e \<Rightarrow> Inl e
      | Inr rgb \<Rightarrow> colors_loop rest (AList.update driver rgb rgb_colors))"

definition get_driver_colors :: "session \<Rightarrow> py_error + (string \<times> int \<times> int \<times> int) list" where
  "get_driver_colors s = colors_loop (color_mapping s) []"

section \<open>The whole computation\<close>

record payload =
  frames :: "frame list"
  driver_colors :: "(string \<times> int \<times> int \<times> int) list"
  track_statuses :: "status_interval list"
  total_laps :: int

text \<open>What the caller gets: the cached document as it was parsed, or a fresh payload.\<close>

datatype telemetry_result = Cached json | Computed payload

text \<open>
  Source lines 204 to 312: from the state in which the driver loop ends to the payload.
  No trace at all is the \<^verbatim>\<open>ValueError\<close> of line 205.
\<close>

definition assemble_payload :: "session \<Rightarrow> loop_state \<Rightarrow> py_error + payload" where
  "assemble_payload s st =
     (case st of (driver_data, global_t_min, global_t_max, max_lap_number) \<Rightarrow>
        (case global_t_min of
           None \<Rightarrow> Inl ValueError
         | Some gmin \<Rightarrow>
        (case global_t_max of
           None \<Rightarrow> Inl ValueError
         | Some gmax \<Rightarrow>
             if driver_data = [] then Inl ValueError
             else
               let timeline = build_timeline gmin gmax;
                   resampled_data = resample_all gmin timeline driver_data;
                   formatted_track_statuses = format_track_statuses gmin (track_status s);
                   frames = build_frames resampled_data timeline
               in (case get_driver_colors s of
                     Inl e \<Rightarrow> Inl e
                   | Inr colors \<Rightarrow>
                       Inr \<lparr>frames = frames, driver_colors = colors,
                            track_statuses = formatted_track_statuses,
                            total_laps = max_lap_number\<rparr>))))"

text \<open>
  Source lines 86 to 321, the path that computes: the driver loop, then the payload.
  Writing the cache file afterwards changes nothing in the value returned (a failure to
  write is caught) and is left out.
\<close>

definition compute_telemetry :: "(string \<Rightarrow> int) \<Rightarrow> session \<Rightarrow> py_error + payload" where
  "compute_telemetry gtci s =
     (case driver_loop gtci s ([], None, None, 0) (drivers s) of
        Inl e \<Rightarrow> Inl e
      | Inr st \<Rightarrow> assemble_payload s st)"

definition get_race_telemetry ::
  "(string \<Rightarrow> int) \<Rightarrow> string list \<Rightarrow> (string \<Rightarrow> cache_file) \<Rightarrow> session \<Rightarrow> string \<Rightarrow>
   py_error + telemetry_result" where
  "get_race_telemetry gtci argv fs s session_type =
     (let event_name = sanitize_filename (session_str s);
          cache_suffix = (if session_type = ''S'' then ''sprint'' else ''race'');
          fresh = (case compute_telemetry gtci s of
                     Inl e \<Rightarrow> Inl e
                   | Inr p \<Rightarrow> Inr (Computed p))
      in if ''--refresh-data'' \<notin> set argv
         then (case load_cached fs event_name cache_suffix of
                 None \<Rightarrow> fresh
               | Some cached \<Rightarrow> if truthy cached then Inr (Cached cached) else fresh)
         else fresh)"

section \<open>Notions used to state the properties\<close>

text \<open>
  A lap is usable when its telemetry can be fetched and has samples. For one driver number,
  \<open>driver_laps\<close> are its laps (none when \<^verbatim>\<open>pick_drivers\<close> raises), \<open>driver_raises\<close> says that
  its lap loop ends in an exception, and \<open>driver_trace\<close> is the trace that the driver loop
  stores for it, if any. The four step functions are the four components of one pass of
  the driver loop.
\<close>

definition usable_lap :: "lap \<Rightarrow> bool" where
  "usable_lap l = (case get_telemetry l of None \<Rightarrow> False | Some tel \<Rightarrow> \<not> df_empty tel)"

definition driver_laps :: "session \<Rightarrow> string \<Rightarrow> lap list" where
  "driver_laps s d = (case pick_drivers s d of None \<Rightarrow> [] | Some laps_driver \<Rightarrow> laps_driver)"

definition driver_raises :: "(string \<Rightarrow> int) \<Rightarrow> session \<Rightarrow> string \<Rightarrow> bool" where
  "driver_raises gtci s d = isl (lap_loop gtci (empty_parts, 0) (driver_laps s d))"

definition driver_trace :: "(string \<Rightarrow> int) \<Rightarrow> session \<Rightarrow> string \<Rightarrow> arrays option" where
  "driver_trace gtci s d =
     (case lap_loop gtci (empty_parts, 0) (driver_laps s d) of
        Inl e \<Rightarrow> None
      | Inr (parts, off) \<Rightarrow> if parts K_t = [] then None else assemble parts)"

definition trace_step ::
  "(string \<Rightarrow> int) \<Rightarrow> session \<Rightarrow> string \<Rightarrow> (string \<times> arrays) list \<Rightarrow> (string \<times> arrays) list"
  where
  "trace_step gtci s d dd =
     (case driver_trace gtci s d of
        None \<Rightarrow> dd
      | Some x \<Rightarrow> AList.update (driver_code s d) x dd)"

definition tmin_step :: "(string \<Rightarrow> int) \<Rightarrow> session \<Rightarrow> string \<Rightarrow> real option \<Rightarrow> real option"
  where
  "tmin_step gtci s d a =
     (case driver_trace gtci s d of
        None \<Rightarrow> a
      | Some x \<Rightarrow> Some (case a of None \<Rightarrow> Min (set (x K_t)) | Some g \<Rightarrow> min g (Min (set (x K_t)))))"

definition tmax_step :: "(string \<Rightarrow> int) \<Rightarrow> session \<Rightarrow> string \<Rightarrow> real option \<Rightarrow> real option"
  where
  "tmax_step gtci s d b =
     (case driver_trace gtci s d of
        None \<Rightarrow> b
      | Some x \<Rightarrow> Some (case b of None \<Rightarrow> Max (set (x K_t)) | Some g \<Rightarrow> max g (Max (set (x K_t)))))"

definition maxlap_step :: "session \<Rightarrow> string \<Rightarrow> int \<Rightarrow> int" where
  "maxlap_step s d m = fold max (map LapNumber (driver_laps s d)) m"

definition session_traces :: "(string \<Rightarrow> int) \<Rightarrow> session \<Rightarrow> string list \<Rightarrow> arrays list" where
  "session_traces gtci s ds = List.map_filter (driver_trace gtci s) ds"

text \<open>
  \<open>car_of\<close> is the entry that the ranking loop writes for a sample and a position;
  \<open>upd_step\<close> is the common shape of the loops that fill a dict: an item either adds
  nothing or assigns a value under its key.
\<close>

definition car_of :: "sample \<Rightarrow> nat \<Rightarrow> car" where
  "car_of v pos =
     \<lparr>car_x = smp_x v, car_y = smp_y v, car_dist = smp_dist v, car_lap = smp_lap v,
      car_rel_dist = py_round_digits (smp_rel_dist v) 4, car_tyre = smp_tyre v,
      car_position = pos, car_speed = smp_speed v, car_gear = smp_gear v,
      car_drs = smp_drs v\<rparr>"

definition upd_step :: "('a \<Rightarrow> 'k) \<Rightarrow> ('a \<Rightarrow> 'v option) \<Rightarrow> 'a \<Rightarrow> ('k \<times> 'v) list \<Rightarrow> ('k \<times> 'v) list"
  where
  "upd_step key f x acc = (case f x of None \<Rightarrow> acc | Some v \<Rightarrow> AList.update (key x) v acc)"

section \<open>Concrete sessions\<close>

text \<open>Small inputs on which the definitions above are evaluated further down.\<close>

definition gtci0 :: "string \<Rightarrow> int" where
  "gtci0 compound = 0"

definition tel_a :: telemetry where
  "tel_a = \<lparr>col_SessionTime = [0, 1 / 25], col_X = [1, 2], col_Y = [3, 4],
     col_Distance = [0, 10], col_RelativeDistance = None, col_Speed = Some [100, 200],
     col_SpeedKph = None, col_nGear = Some [3, 4], col_DRS = Some [0, 1]\<rparr>"

definition tel_b :: telemetry where
  "tel_b = \<lparr>col_SessionTime = [2 / 25, 3 / 25], col_X = [5, 6], col_Y = [7, 8],
     col_Distance = [0, 5], col_RelativeDistance = Some [0, 1 / 2], col_Speed = None,
     col_SpeedKph = Some [150, 160], col_nGear = Some [5, 6], col_DRS = Some [0, 0]\<rparr>"

definition tel_c :: telemetry where
  "tel_c = \<lparr>col_SessionTime = [0, 1 / 25], col_X = [1, 2], col_Y = [3, 4],
     col_Distance = [1, 12], col_RelativeDistance = None, col_Speed = Some [100, 200],
     col_SpeedKph = None, col_nGear = Some [3, 4], col_DRS = Some [0, 1]\<rparr>"

definition tel_no_gear :: telemetry where
  "tel_no_gear = tel_a\<lparr>col_nGear := None\<rparr>"

definition tel_empty :: telemetry where
  "tel_empty = \<lparr>col_SessionTime = [], col_X = [], col_Y = [], col_Distance = [],
     col_RelativeDistance = None, col_Speed = None, col_SpeedKph = None,
     col_nGear = None, col_DRS = None\<rparr>"

definition lap_a :: lap where
  "lap_a = \<lparr>LapNumber = 1, Compound = ''SOFT'', get_telemetry = Some tel_a\<rparr>"

definition lap_b :: lap where
  "lap_b = \<lparr>LapNumber = 2, Compound = ''SOFT'', get_telemetry = Some tel_b\<rparr>"

definition lap_c :: lap where
  "lap_c = \<lparr>LapNumber = 1, Compound = ''HARD'', get_telemetry = Some tel_c\<rparr>"

definition lap_no_gear :: lap where
  "lap_no_gear = \<lparr>LapNumber = 1, Compound = ''SOFT'', get_telemetry = Some tel_no_gear\<rparr>"

definition lap_failed :: lap where
  "lap_failed = \<lparr>LapNumber = 7, Compound = ''SOFT'', get_telemetry = None\<rparr>"

definition lap_empty :: lap where
  "lap_empty = \<lparr>LapNumber = 3, Compound = ''SOFT'', get_telemetry = Some tel_empty\<rparr>"

definition abbreviations :: "string \<Rightarrow> string option" where
  "abbreviations num =
     (if num = ''1'' then Some ''VER'' else if num = ''44'' then Some ''HAM'' else None)"

definition two_colors :: "(string \<times> string) list" where
  "two_colors = [(''VER'', ''#0600ef''), (''HAM'', ''#00d2be'')]"

text \<open>One driver, two good laps.\<close>

definition sess_one :: session where
  "sess_one = \<lparr>drivers = [''1''], get_driver = abbreviations,
     pick_drivers = (\<lambda>num. if num = ''1'' then Some [lap_a, lap_b] else None),
     track_status = None, color_mapping = two_colors, session_str = ''2025 R12''\<rparr>"

text \<open>One driver, one lap with samples at 0 s and 0.04 s.\<close>

definition sess_short :: session where
  "sess_short = \<lparr>drivers = [''1''], get_driver = abbreviations,
     pick_drivers = (\<lambda>num. if num = ''1'' then Some [lap_a] else None),
     track_status = None, color_mapping = two_colors, session_str = ''2025 R12''\<rparr>"

text \<open>One driver, one lap whose telemetry has no \<^verbatim>\<open>nGear\<close> column.\<close>

definition sess_no_gear :: session where
  "sess_no_gear = \<lparr>drivers = [''1''], get_driver = abbreviations,
     pick_drivers = (\<lambda>num. if num = ''1'' then Some [lap_no_gear] else None),
     track_status = None, color_mapping = two_colors, session_str = ''2025 R12''\<rparr>"

text \<open>Two drivers; the second one's only lap has no telemetry.\<close>

definition sess_excluded :: session where
  "sess_excluded = \<lparr>drivers = [''1'', ''44''], get_driver = abbreviations,
     pick_drivers = (\<lambda>num. if num = ''1'' then Some [lap_a]
                            else if num = ''44'' then Some [lap_failed] else None),
     track_status = None, color_mapping = two_colors, session_str = ''2025 R12''\<rparr>"



text \<open>Two drivers whose distances differ at every tick.\<close>

definition sess_two :: session where
  "sess_two = \<lparr>drivers = [''1'', ''44''], get_driver = abbreviations,
     pick_drivers = (\<lambda>num. if num = ''1'' then Some [lap_a]
                            else if num = ''44'' then Some [lap_c] else None),
     track_status = None, color_mapping = two_colors, session_str = ''2025 R12''\<rparr>"


definition fs_empty_object :: "string \<Rightarrow> cache_file" where
  "fs_empty_object path = Parses (JObj [])"

definition fs_document :: "string \<Rightarrow> cache_file" where
  "fs_document path = Parses (JObj [(''total_laps'', JNum 57)])"

definition two_events :: "status_event list" where
  "two_events = [\<lparr>ev_Time = 10, ev_Status = Some ''1''\<rparr>,
                 \<lparr>ev_Time = 25, ev_Status = Some ''4''\<rparr>]"

section \<open>The cache is used only for a truthy document\<close>

lemma fresh_not_cached:
  "(case compute_telemetry gtci s of Inl e \<Rightarrow> Inl e | Inr p \<Rightarrow> Inr (Computed p))
     \<noteq> Inr (Cached j)"
  by (simp split: sum.splits)

text \<open>
  Claim C10. Without \<^verbatim>\<open>--refresh-data\<close> among the arguments, the cached document is what
  the function returns exactly when the cache file exists, parses, and parses to a truthy
  value. With the flag, with no file, with a file that does not parse, or with a falsy
  document, the function returns what the full computation returns.
\<close>

theorem cache_hit_iff:
  "(get_race_telemetry gtci argv fs s session_type = Inr (Cached j) \<longleftrightarrow>
      ''--refresh-data'' \<notin> set argv \<and>
      fs (cached_filepath (sanitize_filename (session_str s))
            (if session_type = ''S'' then ''sprint'' else ''race'')) = Parses j \<and>
      truthy j) \<and>
   ((''--refresh-data'' \<in> set argv \<or>
     (case fs (cached_filepath (sanitize_filename (session_str s))
                 (if session_type = ''S'' then ''sprint'' else ''race'')) of
        Absent \<Rightarrow> True | Unparsable \<Rightarrow> True | Parses c \<Rightarrow> \<not> truthy c)) \<longrightarrow>
    get_race_telemetry gtci argv fs s session_type =
      (case compute_telemetry gtci s of Inl e \<Rightarrow> Inl e | Inr p \<Rightarrow> Inr (Computed p)))"
  unfolding get_race_telemetry_def load_cached_def Let_def
  using fresh_not_cached [of gtci s j]
  by (auto split: cache_file.splits)

theorem cache_hit_iff_witness:
  "get_race_telemetry gtci0 [] fs_document sess_one ''R'' =
     Inr (Cached (JObj [(''total_laps'', JNum 57)])) \<and>
   get_race_telemetry gtci0 [] fs_empty_object sess_one ''R'' =
     (case compute_telemetry gtci0 sess_one of Inl e \<Rightarrow> Inl e | Inr p \<Rightarrow> Inr (Computed p))"
  using cache_hit_iff [of gtci0 "[]" fs_document sess_one "''R''" "JObj [(''total_laps'', JNum 57)]"]
    cache_hit_iff [of gtci0 "[]" fs_empty_object sess_one "''R''" JNull]
  by (simp add: fs_document_def fs_empty_object_def)

section \<open>Status intervals\<close>

lemma status_step_length: "length (status_step g ev acc) = Suc (length acc)"
  by (cases "acc = []") (simp_all add: status_step_def Let_def)

lemma fold_status_length: "length (fold (status_step g) evs []) = length evs"
  by (induction evs rule: rev_induct) (simp_all add: status_step_length)

lemma status_chain:
  "i < length evs \<Longrightarrow>
     start_time (fold (status_step g) evs [] ! i) = ev_Time (evs ! i) - g \<and>
     status (fold (status_step g) evs [] ! i) = ev_Status (evs ! i) \<and>
     end_time (fold (status_step g) evs [] ! i) =
       (if Suc i < length evs then Some (ev_Time (evs ! Suc i) - g) else None)"
proof (induction evs arbitrary: i rule: rev_induct)
  case Nil
  then show ?case by simp
next
  case (snoc ev evs)
  let ?acc = "fold (status_step g) evs []"
  have len: "length ?acc = length evs" by (rule fold_status_length)
  show ?case
  proof (cases "evs = []")
    case True
    with snoc.prems show ?thesis by (simp add: status_step_def Let_def)
  next
    case False
    then have ne: "?acc \<noteq> []" using len by auto
    define pre where
      "pre = butlast ?acc @ [(last ?acc)\<lparr>end_time := Some (ev_Time ev - g)\<rparr>]"
    have step: "fold (status_step g) (evs @ [ev]) [] =
        pre @ [\<lparr>status = ev_Status ev, start_time = ev_Time ev - g, end_time = None\<rparr>]"
      using ne by (simp add: status_step_def Let_def pre_def)
    have pos: "0 < length evs" using False by simp
    have lpre: "length pre = length evs" using len pos by (simp add: pre_def)
    have pre_old: "pre ! k = ?acc ! k" if "Suc k < length evs" for k
      using that len by (simp add: pre_def nth_append nth_butlast)
    have pre_last:
      "pre ! (length evs - 1) = (last ?acc)\<lparr>end_time := Some (ev_Time ev - g)\<rparr>"
      using len pos by (simp add: pre_def nth_append)
    have last_acc: "last ?acc = ?acc ! (length evs - 1)"
      using ne len by (simp add: last_conv_nth)
    consider (old) "Suc i < length evs" | (prev) "Suc i = length evs" | (new) "i = length evs"
      using snoc.prems by force
    then show ?thesis
    proof cases
      case old
      then have "fold (status_step g) (evs @ [ev]) [] ! i = ?acc ! i"
        unfolding step using lpre pre_old by (simp add: nth_append)
      moreover have "i < length evs" using old by simp
      ultimately show ?thesis using snoc.IH [of i] old by (simp add: nth_append)
    next
      case prev
      then have i: "i = length evs - 1" and ilt: "i < length evs" by simp_all
      have "fold (status_step g) (evs @ [ev]) [] ! i =
          (?acc ! i)\<lparr>end_time := Some (ev_Time ev - g)\<rparr>"
        unfolding step using lpre pre_last last_acc ilt i by (simp add: nth_append)
      then show ?thesis using snoc.IH [of i] prev ilt by (simp add: nth_append)
    next
      case new
      then have "fold (status_step g) (evs @ [ev]) [] ! i =
          \<lparr>status = ev_Status ev, start_time = ev_Time ev - g, end_time = None\<rparr>"
        unfolding step using lpre by (simp add: nth_append)
      then show ?thesis using new by simp
    qed
  qed
qed

text \<open>
  Claim C9. A missing status stream gives the empty list and no error. Otherwise there is
  one interval per event, in the events' order; each starts at the event's time minus
  \<open>global_t_min\<close>; each one but the last ends where the next one starts, and the last one
  has no end.
\<close>

theorem status_intervals_contiguous:
  "format_track_statuses g None = [] \<and>
   length (format_track_statuses g (Some evs)) = length evs \<and>
   (\<forall>i < length evs.
      start_time (format_track_statuses g (Some evs) ! i) = ev_Time (evs ! i) - g \<and>
      status (format_track_statuses g (Some evs) ! i) = ev_Status (evs ! i) \<and>
      end_time (format_track_statuses g (Some evs) ! i) =
        (if Suc i < length evs
         then Some (start_time (format_track_statuses g (Some evs) ! Suc i))
         else None))"
  using status_chain [of _ evs g]
  by (simp add: format_track_statuses_def fold_status_length)

theorem status_intervals_contiguous_witness:
  "format_track_statuses 4 (Some two_events) =
     [\<lparr>status = Some ''1'', start_time = 6, end_time = Some 21\<rparr>,
      \<lparr>status = Some ''4'', start_time = 21, end_time = None\<rparr>] \<and>
   length (format_track_statuses 4 (Some two_events)) = length two_events \<and>
   end_time (format_track_statuses 4 (Some two_events) ! 0) =
     Some (start_time (format_track_statuses 4 (Some two_events) ! 1)) \<and>
   end_time (format_track_statuses 4 (Some two_events) ! 1) = None"
  using status_intervals_contiguous [of 4 two_events]
  by (simp add: format_track_statuses_def two_events_def status_step_def)

section \<open>Cumulative distance over the laps of a driver\<close>

lemma lap_step_skip:
  "get_telemetry lap = None \<or> (\<exists>tel. get_telemetry lap = Some tel \<and> df_empty tel) \<Longrightarrow>
     lap_step gtci (parts, off) lap = Inr (parts, off)"
  by (auto simp: lap_step_def)

lemma lap_step_usable:
  assumes "get_telemetry lap = Some tel" and "\<not> df_empty tel"
  shows "lap_step gtci (parts, off) lap =
     (if (col_Speed tel = None \<and> col_SpeedKph tel = None) \<or> col_nGear tel = None \<or>
         col_DRS tel = None
      then Inl AttributeError
      else Inr (\<lambda>k. parts k @
                  [case k of
                     K_t \<Rightarrow> col_SessionTime tel | K_x \<Rightarrow> col_X tel | K_y \<Rightarrow> col_Y tel
                   | K_dist \<Rightarrow> map (\<lambda>d. off + d) (col_Distance tel)
                   | K_rel_dist \<Rightarrow> (case col_RelativeDistance tel of
                                      None \<Rightarrow> col_Distance tel | Some a \<Rightarrow> a)
                   | K_lap \<Rightarrow> replicate (length (col_SessionTime tel)) (of_int (LapNumber lap))
                   | K_tyre \<Rightarrow> replicate (length (col_SessionTime tel))
                                 (of_int (gtci (Compound lap)))
                   | K_speed \<Rightarrow> (case col_Speed tel of
                                   None \<Rightarrow> the (col_SpeedKph tel) | Some a \<Rightarrow> a)
                   | K_gear \<Rightarrow> the (col_nGear tel)
                   | K_drs \<Rightarrow> the (col_DRS tel)],
                if col_Distance tel = [] then off else off + last (col_Distance tel)))"
  using assms
  by (auto simp: lap_step_def Let_def df_get_def full_like_def last_map
      split: option.splits chan.splits intro!: ext)

text \<open>
  Claim C5. A usable lap appends its own distances plus the running offset to the
  cumulative-distance parts, and the offset becomes the last value appended (it stays as it
  is when the lap's distance array is empty). A lap whose telemetry cannot be fetched or is
  empty changes neither the parts nor the offset. Lap distances \<open>[0, 10]\<close> followed by
  \<open>[0, 5]\<close> give \<open>[0, 10, 10, 15]\<close>, also with skipped laps in between.
\<close>

theorem cumulative_distance_offset:
  "(get_telemetry lap = Some tel \<and> \<not> df_empty tel \<and>
      lap_step gtci (parts, off) lap = Inr (parts', off') \<longrightarrow>
        parts' K_dist = parts K_dist @ [map (\<lambda>d. off + d) (col_Distance tel)] \<and>
        off' = (if col_Distance tel = [] then off else last (last (parts' K_dist)))) \<and>
   (get_telemetry lap = None \<or> (\<exists>tel. get_telemetry lap = Some tel \<and> df_empty tel) \<longrightarrow>
      lap_step gtci (parts, off) lap = Inr (parts, off)) \<and>
   (\<exists>p. lap_loop gtci (empty_parts, 0) [lap_a, lap_b] = Inr (p, 15) \<and>
        p K_dist = [[0, 10], [10, 15]] \<and> concat (p K_dist) = [0, 10, 10, 15] \<and>
        lap_loop gtci (empty_parts, 0) [lap_a, lap_failed, lap_empty, lap_b] = Inr (p, 15))"
proof (intro conjI impI)
  assume a: "get_telemetry lap = Some tel \<and> \<not> df_empty tel \<and>
      lap_step gtci (parts, off) lap = Inr (parts', off')"
  then have *: "lap_step gtci (parts, off) lap = Inr (parts', off')" by simp
  from a have eq: "parts' = (\<lambda>k. parts k @
                  [case k of
                     K_t \<Rightarrow> col_SessionTime tel | K_x \<Rightarrow> col_X tel | K_y \<Rightarrow> col_Y tel
                   | K_dist \<Rightarrow> map (\<lambda>d. off + d) (col_Distance tel)
                   | K_rel_dist \<Rightarrow> (case col_RelativeDistance tel of
                                      None \<Rightarrow> col_Distance tel | Some a \<Rightarrow> a)
                   | K_lap \<Rightarrow> replicate (length (col_SessionTime tel)) (of_int (LapNumber lap))
                   | K_tyre \<Rightarrow> replicate (length (col_SessionTime tel))
                                 (of_int (gtci (Compound lap)))
                   | K_speed \<Rightarrow> (case col_Speed tel of
                                   None \<Rightarrow> the (col_SpeedKph tel) | Some a \<Rightarrow> a)
                   | K_gear \<Rightarrow> the (col_nGear tel)
                   | K_drs \<Rightarrow> the (col_DRS tel)])"
     and off': "off' = (if col_Distance tel = [] then off else off + last (col_Distance tel))"
    using lap_step_usable [of lap tel gtci parts off] by (auto split: if_splits)
  show "parts' K_dist = parts K_dist @ [map (\<lambda>d. off + d) (col_Distance tel)]"
    by (simp add: eq)
  show "off' = (if col_Distance tel = [] then off else last (last (parts' K_dist)))"
    by (simp add: eq off' last_map)
next
  assume "get_telemetry lap = None \<or> (\<exists>tel. get_telemetry lap = Some tel \<and> df_empty tel)"
  then show "lap_step gtci (parts, off) lap = Inr (parts, off)" by (rule lap_step_skip)
next
  have s1: "lap_step gtci st lap_failed = Inr st" for st
    by (cases st) (simp add: lap_step_skip lap_failed_def)
  have s2: "lap_step gtci st lap_empty = Inr st" for st
    by (cases st) (simp add: lap_step_def lap_empty_def tel_empty_def df_empty_def)
  have a: "get_telemetry lap_a = Some tel_a" "\<not> df_empty tel_a"
    and b: "get_telemetry lap_b = Some tel_b" "\<not> df_empty tel_b"
    by (simp_all add: lap_a_def lap_b_def tel_a_def tel_b_def df_empty_def)
  obtain pa where pa: "lap_step gtci (empty_parts, 0) lap_a = Inr (pa, 10)"
      and pad: "pa K_dist = [[0, 10]]"
    using lap_step_usable [OF a, of gtci empty_parts 0]
    by (simp add: tel_a_def empty_parts_def)
  obtain pb where pb: "lap_step gtci (pa, 10) lap_b = Inr (pb, 15)"
      and pbd: "pb K_dist = [[0, 10], [10, 15]]"
    using lap_step_usable [OF b, of gtci pa 10] pad
    by (simp add: tel_b_def)
  show "\<exists>p. lap_loop gtci (empty_parts, 0) [lap_a, lap_b] = Inr (p, 15) \<and>
        p K_dist = [[0, 10], [10, 15]] \<and> concat (p K_dist) = [0, 10, 10, 15] \<and>
        lap_loop gtci (empty_parts, 0) [lap_a, lap_failed, lap_empty, lap_b] = Inr (p, 15)"
    using pa pb pbd s1 s2 by (intro exI [of _ pb]) simp
qed

theorem cumulative_distance_offset_witness:
  "lap_step gtci0 (\<lambda>k. [[7]], 7) lap_b =
     Inr (fst (projr (lap_step gtci0 (\<lambda>k. [[7]], 7) lap_b)), 12) \<and>
   fst (projr (lap_step gtci0 (\<lambda>k. [[7]], 7) lap_b)) K_dist = [[7], [7, 12]] \<and>
   lap_step gtci0 (\<lambda>k. [[7]], 7) lap_failed = Inr (\<lambda>k. [[7]], 7)"
proof -
  have b: "get_telemetry lap_b = Some tel_b" "\<not> df_empty tel_b"
    by (simp_all add: lap_b_def tel_b_def df_empty_def)
  obtain p where p: "lap_step gtci0 (\<lambda>k. [[7]], 7) lap_b = Inr (p, 12)"
    using lap_step_usable [OF b, of gtci0 "\<lambda>k. [[7]]" 7] by (simp add: tel_b_def)
  have f: "get_telemetry lap_failed = None" by (simp add: lap_failed_def)
  show ?thesis
    using cumulative_distance_offset [of lap_b tel_b gtci0 "\<lambda>k. [[7]]" 7 p 12]
      cumulative_distance_offset [of lap_failed tel_b gtci0 "\<lambda>k. [[7]]" 7 p 12] b p f
    by (simp add: tel_b_def)
qed

section \<open>Optional channels\<close>

text \<open>
  Claim C2. For a lap with samples, a missing \<^verbatim>\<open>RelativeDistance\<close> column is replaced by the
  \<^verbatim>\<open>Distance\<close> column and a missing \<^verbatim>\<open>Speed\<close> column by \<^verbatim>\<open>SpeedKph\<close> when that one is there.
  But the lap raises \<^verbatim>\<open>AttributeError\<close> exactly when \<^verbatim>\<open>nGear\<close> or \<^verbatim>\<open>DRS\<close> is missing, or
  both speed columns are: the default handed to \<^verbatim>\<open>get\<close> is a numpy array (or \<^verbatim>\<open>None\<close>), on
  which \<^verbatim>\<open>.to_numpy()\<close> does not exist.
\<close>

theorem missing_channel_raises:
  "get_telemetry lap = Some tel \<and> \<not> df_empty tel \<longrightarrow>
     (lap_step gtci st lap = Inl AttributeError \<longleftrightarrow>
        col_nGear tel = None \<or> col_DRS tel = None \<or>
        (col_Speed tel = None \<and> col_SpeedKph tel = None)) \<and>
     (\<forall>parts' off'. lap_step gtci st lap = Inr (parts', off') \<longrightarrow>
        last (parts' K_rel_dist) =
          (case col_RelativeDistance tel of None \<Rightarrow> col_Distance tel | Some a \<Rightarrow> a) \<and>
        last (parts' K_speed) =
          (case col_Speed tel of None \<Rightarrow> the (col_SpeedKph tel) | Some a \<Rightarrow> a))"
proof (cases st)
  case (Pair parts off)
  show ?thesis
    unfolding Pair
    by (auto simp: lap_step_usable [of lap tel gtci parts off])
qed

theorem missing_channel_raises_witness:
  "lap_step gtci0 (empty_parts, 0) lap_no_gear = Inl AttributeError \<and>
   get_telemetry lap_no_gear = Some tel_no_gear \<and> \<not> df_empty tel_no_gear \<and>
   col_nGear tel_no_gear = None"
  using missing_channel_raises [of lap_no_gear tel_no_gear gtci0 "(empty_parts, 0)"]
  by (simp add: lap_no_gear_def tel_no_gear_def tel_a_def df_empty_def)

section \<open>What aborts the computation\<close>

text \<open>
  Claim C1. The session \<open>sess_no_gear\<close> has one driver with one lap of two samples whose
  telemetry lacks the \<^verbatim>\<open>nGear\<close> column: the whole computation ends in \<^verbatim>\<open>AttributeError\<close>.
  With the column present (\<open>sess_short\<close>) the same session gives a payload.
\<close>

theorem missing_gear_aborts:
  "get_race_telemetry gtci0 [] fs_empty_object sess_no_gear ''R'' = Inl AttributeError \<and>
   isl (get_race_telemetry gtci0 [] fs_empty_object sess_short ''R'') = False"
  by code_simp

section \<open>The loop over the drivers\<close>

lemma to_numpy_err: "to_numpy v = Inl e \<Longrightarrow> e = AttributeError"
  by (cases v) simp_all

lemma lap_step_err: "lap_step gtci st l = Inl e \<Longrightarrow> e = AttributeError"
  by (auto simp: lap_step_def Let_def split: prod.splits option.splits if_splits sum.splits
      dest: to_numpy_err)

lemma lap_loop_err: "lap_loop gtci st ls = Inl e \<Longrightarrow> e = AttributeError"
  by (induction ls arbitrary: st) (auto split: sum.splits dest: lap_step_err)

lemma fold_max_Max: "fold max xs (m::int) = Max (set (m # xs))"
  by (rule Max.set_eq_fold [symmetric])

lemma driver_step_char:
  "driver_step gtci s (dd, a, b, m) d =
     (if driver_raises gtci s d then Inl AttributeError
      else Inr (trace_step gtci s d dd, tmin_step gtci s d a, tmax_step gtci s d b,
                maxlap_step s d m))"
proof (cases "pick_drivers s d")
  case None
  then show ?thesis
    by (simp add: driver_step_def driver_raises_def driver_laps_def trace_step_def
        tmin_step_def tmax_step_def maxlap_step_def driver_trace_def empty_parts_def)
next
  case (Some laps)
  show ?thesis
  proof (cases "laps = []")
    case True
    with Some show ?thesis
      by (simp add: driver_step_def driver_raises_def driver_laps_def trace_step_def
          tmin_step_def tmax_step_def maxlap_step_def driver_trace_def empty_parts_def)
  next
    case False
    then have mx: "fold max (map LapNumber laps) m = max m (Max (set (map LapNumber laps)))"
      by (simp add: fold_max_Max)
    show ?thesis
    proof (cases "lap_loop gtci (empty_parts, 0) laps")
      case (Inl e)
      then have "e = AttributeError" by (rule lap_loop_err)
      with Inl Some False show ?thesis
        by (simp add: driver_step_def driver_raises_def driver_laps_def Let_def)
    next
      case (Inr r)
      obtain parts off where r: "r = (parts, off)" by (cases r)
      from Inr r Some False mx show ?thesis
        by (simp add: driver_step_def driver_raises_def driver_laps_def trace_step_def
            tmin_step_def tmax_step_def maxlap_step_def driver_trace_def Let_def
            split: option.splits)
    qed
  qed
qed

lemma driver_loop_raises:
  "\<exists>d\<in>set ds. driver_raises gtci s d \<Longrightarrow> driver_loop gtci s st ds = Inl AttributeError"
proof (induction ds arbitrary: st)
  case Nil
  then show ?case by simp
next
  case (Cons d ds)
  obtain dd a b m where st: "st = (dd, a, b, m)" by (cases st)
  show ?case
  proof (cases "driver_raises gtci s d")
    case True
    then show ?thesis by (simp add: st driver_step_char)
  next
    case False
    with Cons.prems have "\<exists>d\<in>set ds. driver_raises gtci s d" by simp
    with False Cons.IH show ?thesis by (simp add: st driver_step_char)
  qed
qed

lemma driver_loop_char:
  "\<forall>d\<in>set ds. \<not> driver_raises gtci s d \<Longrightarrow>
     driver_loop gtci s (dd, a, b, m) ds =
       Inr (fold (trace_step gtci s) ds dd, fold (tmin_step gtci s) ds a,
            fold (tmax_step gtci s) ds b, fold (maxlap_step s) ds m)"
  by (induction ds arbitrary: dd a b m) (simp_all add: driver_step_char)

section \<open>Sorting a trace by time\<close>
















section \<open>The timeline\<close>






lemma set_map_filter_eq: "set (List.map_filter f xs) = {y. \<exists>x\<in>set xs. f x = Some y}"
  by (induction xs) (auto simp: map_filter_simps split: option.splits)


lemma driver_loop_Inr:
  assumes "driver_loop gtci s (dd0, a, b, m0) ds = Inr (dd, gmin, gmax, m)"
  shows "dd = fold (trace_step gtci s) ds dd0" and "gmin = fold (tmin_step gtci s) ds a"
    and "gmax = fold (tmax_step gtci s) ds b" and "m = fold (maxlap_step s) ds m0"
proof -
  have "\<forall>d\<in>set ds. \<not> driver_raises gtci s d"
    using assms driver_loop_raises [of ds gtci s "(dd0, a, b, m0)"] by auto
  from driver_loop_char [OF this, of dd0 a b m0] assms
  show "dd = fold (trace_step gtci s) ds dd0" and "gmin = fold (tmin_step gtci s) ds a"
    and "gmax = fold (tmax_step gtci s) ds b" and "m = fold (maxlap_step s) ds m0"
    by simp_all
qed







section \<open>Resampling\<close>










section \<open>Dicts filled by a loop\<close>

lemma update_fresh: "k \<notin> fst ` set al \<Longrightarrow> AList.update k v al = al @ [(k, v)]"
  by (induction al) auto

lemma upd_step_keys:
  "fst ` set (upd_step key f x acc) = fst ` set acc \<union> (if f x = None then {} else {key x})"
  by (auto simp: upd_step_def dom_update split: option.splits)

lemma fold_upd_keys:
  "fst ` set (fold (upd_step key f) xs acc) =
     fst ` set acc \<union> {key x | x. x \<in> set xs \<and> f x \<noteq> None}"
proof (induction xs arbitrary: acc)
  case Nil
  then show ?case by simp
next
  case (Cons x xs)
  have "fst ` set (fold (upd_step key f) (x # xs) acc) =
      fst ` set (upd_step key f x acc) \<union> {key x | x. x \<in> set xs \<and> f x \<noteq> None}"
    using Cons.IH [of "upd_step key f x acc"] by simp
  also have "\<dots> = fst ` set acc \<union> {key y | y. y \<in> set (x # xs) \<and> f y \<noteq> None}"
    unfolding upd_step_keys by auto
  finally show ?case .
qed

lemma map_enumerate_snd: "map (\<lambda>e. g (snd e)) (enumerate n xs) = map g xs"
  by (induction xs arbitrary: n) simp_all

lemma map_enumerate_fst: "map (\<lambda>e. g (fst e)) (enumerate n xs) = map g [n..<n + length xs]"
proof -
  have "map g [n..<n + length xs] = map g (map fst (enumerate n xs))" by simp
  also have "\<dots> = map (\<lambda>e. g (fst e)) (enumerate n xs)" by (simp only: map_map comp_def)
  finally show ?thesis by (rule sym)
qed

lemma fold_upd_distinct:
  "distinct (map fst acc) \<Longrightarrow> distinct (map fst (fold (upd_step key f) xs acc))"
proof (induction xs arbitrary: acc)
  case Nil
  then show ?case by simp
next
  case (Cons x xs)
  have "distinct (map fst (upd_step key f x acc))"
    using Cons.prems by (simp add: upd_step_def distinct_update split: option.splits)
  then show ?case using Cons.IH by simp
qed

lemma fold_upd_fresh:
  assumes "distinct (map key (filter (\<lambda>x. f x \<noteq> None) xs))"
    and "\<forall>x\<in>set xs. f x \<noteq> None \<longrightarrow> key x \<notin> fst ` set acc"
  shows "fold (upd_step key f) xs acc =
     acc @ List.map_filter (\<lambda>x. map_option (Pair (key x)) (f x)) xs"
  using assms
proof (induction xs arbitrary: acc)
  case Nil
  then show ?case by (simp add: map_filter_simps)
next
  case (Cons x xs)
  show ?case
  proof (cases "f x")
    case None
    with Cons.prems have "fold (upd_step key f) xs acc =
        acc @ List.map_filter (\<lambda>x. map_option (Pair (key x)) (f x)) xs"
      by (intro Cons.IH) auto
    moreover have "upd_step key f x acc = acc" using None by (simp add: upd_step_def)
    ultimately show ?thesis using None by (simp add: map_filter_simps)
  next
    case (Some v)
    with Cons.prems have fresh: "key x \<notin> fst ` set acc" by simp
    have step: "upd_step key f x acc = acc @ [(key x, v)]"
      using Some fresh by (simp add: upd_step_def update_fresh)
    have d: "distinct (map key (filter (\<lambda>x. f x \<noteq> None) xs))"
      and nx: "\<forall>y\<in>set xs. f y \<noteq> None \<longrightarrow> key y \<noteq> key x"
      using Cons.prems(1) Some by (auto simp: image_iff)
    have "\<forall>y\<in>set xs. f y \<noteq> None \<longrightarrow> key y \<notin> fst ` set (acc @ [(key x, v)])"
      using Cons.prems(2) nx by auto
    from Cons.IH [OF d this] Some step show ?thesis
      by (simp add: map_filter_simps)
  qed
qed

lemma gather_step_upd: "gather_step i = upd_step fst (\<lambda>item. sample_at (snd item) i)"
  by (intro ext) (simp add: gather_step_def upd_step_def)

lemma resample_step_upd:
  "resample_step g tline = upd_step fst (\<lambda>item. resample_driver g tline (snd item))"
  by (intro ext) (simp add: resample_step_def upd_step_def)

lemma trace_step_upd: "trace_step gtci s = upd_step (driver_code s) (driver_trace gtci s)"
  by (intro ext) (simp add: trace_step_def upd_step_def)

lemma rank_step_upd:
  "rank_step = upd_step (\<lambda>e. fst (snd e)) (\<lambda>e. Some (car_of (snd (snd e)) (fst e + 1)))"
  by (intro ext) (simp add: rank_step_def upd_step_def car_of_def split: prod.splits)

lemma snapshot_distinct:
  "distinct (map fst fd) \<Longrightarrow> distinct (map fst (snapshot_of fd))"
proof -
  assume "distinct (map fst fd)"
  moreover have "mset (map fst (snapshot_of fd)) = mset (map fst fd)"
    by (simp add: snapshot_of_def)
  ultimately show ?thesis by (metis mset_eq_imp_distinct_iff)
qed

lemma rank_fold:
  assumes "distinct (map fst snap)"
  shows "fold rank_step (enumerate 0 snap) [] =
     map (\<lambda>e. (fst (snd e), car_of (snd (snd e)) (fst e + 1))) (enumerate 0 snap)"
proof -
  have m: "map (\<lambda>e. fst (snd e)) (enumerate 0 snap) = map fst snap"
    by (rule map_enumerate_snd)
  have "fold rank_step (enumerate 0 snap) [] =
      [] @ List.map_filter (\<lambda>e. map_option (Pair (fst (snd e)))
         (Some (car_of (snd (snd e)) (fst e + 1)))) (enumerate 0 snap)"
    unfolding rank_step_upd
    by (intro fold_upd_fresh) (simp_all add: m assms)
  then show ?thesis by (simp add: List.map_filter_def comp_def)
qed

lemma build_frame_Some:
  assumes "build_frame rd (i, t) = Some f"
  shows "snapshot_of (fold (gather_step i) rd []) \<noteq> []"
    and "distinct (map fst (snapshot_of (fold (gather_step i) rd [])))"
    and "frame_drivers f =
      map (\<lambda>e. (fst (snd e), car_of (snd (snd e)) (fst e + 1)))
        (enumerate 0 (snapshot_of (fold (gather_step i) rd [])))"
    and "frame_t f = t"
    and "frame_lap f = smp_lap (snd (hd (snapshot_of (fold (gather_step i) rd []))))"
proof -
  let ?fd = "fold (gather_step i) rd []"
  from assms have ne: "?fd \<noteq> []"
    and f: "f = \<lparr>frame_t = t, frame_lap = smp_lap (snd (hd (snapshot_of ?fd))),
                 frame_drivers = fold rank_step (enumerate 0 (snapshot_of ?fd)) []\<rparr>"
    by (auto simp: build_frame_def Let_def split: if_splits)
  have "length (snapshot_of ?fd) = length ?fd" by (simp add: snapshot_of_def)
  with ne show "snapshot_of ?fd \<noteq> []" by auto
  have "distinct (map fst ?fd)"
    unfolding gather_step_upd by (rule fold_upd_distinct) simp
  then show d: "distinct (map fst (snapshot_of ?fd))" by (rule snapshot_distinct)
  show "frame_drivers f =
      map (\<lambda>e. (fst (snd e), car_of (snd (snd e)) (fst e + 1))) (enumerate 0 (snapshot_of ?fd))"
    using rank_fold [OF d] by (simp add: f)
  show "frame_t f = t" by (simp add: f)
  show "frame_lap f = smp_lap (snd (hd (snapshot_of ?fd)))" by (simp add: f)
qed

lemma build_frames_mem:
  "f \<in> set (build_frames rd tline) \<Longrightarrow>
     \<exists>i < length tline. build_frame rd (i, tline ! i) = Some f"
  by (auto simp: build_frames_def set_map_filter_eq in_set_enumerate_eq)

lemma sorted_neg_rev:
  "sorted (map (\<lambda>r. - g r) xs) \<Longrightarrow> sorted (rev (map (\<lambda>r. (g r :: real)) xs))"
  by (induction xs) (auto simp: sorted_append)

lemma frame_ranks:
  assumes "f \<in> set (build_frames rd tline)"
  shows "frame_drivers f \<noteq> []"
    and "distinct (map fst (frame_drivers f))"
    and "map (\<lambda>e. car_position (snd e)) (frame_drivers f) = [1..<Suc (length (frame_drivers f))]"
    and "sorted (rev (map (\<lambda>e. car_dist (snd e)) (frame_drivers f)))"
proof -
  from build_frames_mem [OF assms] obtain i where bf: "build_frame rd (i, tline ! i) = Some f"
    by blast
  let ?snap = "snapshot_of (fold (gather_step i) rd [])"
  note B = build_frame_Some [OF bf]
  have len: "length (frame_drivers f) = length ?snap" by (simp add: B(3))
  show "frame_drivers f \<noteq> []" using B(1) len by auto
  have "map fst (frame_drivers f) = map (\<lambda>e. fst (snd e)) (enumerate 0 ?snap)"
    by (simp add: B(3) comp_def)
  also have "\<dots> = map fst ?snap" by (rule map_enumerate_snd)
  finally show "distinct (map fst (frame_drivers f))" using B(2) by simp
  have "map (\<lambda>e. car_position (snd e)) (frame_drivers f) =
      map (\<lambda>e. Suc (fst e)) (enumerate 0 ?snap)"
    by (simp add: B(3) comp_def car_of_def)
  also have "\<dots> = map Suc [0..<length ?snap]"
    using map_enumerate_fst [of Suc 0 ?snap] by simp
  also have "\<dots> = [1..<Suc (length ?snap)]"
    by (simp add: map_Suc_upt)
  finally show "map (\<lambda>e. car_position (snd e)) (frame_drivers f) =
      [1..<Suc (length (frame_drivers f))]"
    by (simp add: len)
  have "map (\<lambda>e. car_dist (snd e)) (frame_drivers f) =
      map (\<lambda>e. smp_dist (snd (snd e))) (enumerate 0 ?snap)"
    by (simp add: B(3) comp_def car_of_def)
  also have "\<dots> = map (\<lambda>r. smp_dist (snd r)) ?snap"
    by (rule map_enumerate_snd)
  finally have eq: "map (\<lambda>e. car_dist (snd e)) (frame_drivers f) =
      map (\<lambda>r. smp_dist (snd r)) ?snap" .
  have "sorted (map (\<lambda>r. - smp_dist (snd r)) ?snap)"
    unfolding snapshot_of_def by (rule sorted_sort_key)
  then have "sorted (rev (map (\<lambda>r. smp_dist (snd r)) ?snap))"
    by (rule sorted_neg_rev)
  then show "sorted (rev (map (\<lambda>e. car_dist (snd e)) (frame_drivers f)))"
    by (simp add: eq)
qed


section \<open>Ranks within a frame\<close>

lemma compute_Inr:
  assumes "compute_telemetry gtci s = Inr p"
  obtains dd gmin gmax m colors where
    "driver_loop gtci s ([], None, None, 0) (drivers s) = Inr (dd, Some gmin, Some gmax, m)"
    and "dd \<noteq> []" and "get_driver_colors s = Inr colors"
    and "p = \<lparr>frames = build_frames (resample_all gmin (build_timeline gmin gmax) dd)
                  (build_timeline gmin gmax),
               driver_colors = colors,
               track_statuses = format_track_statuses gmin (track_status s),
               total_laps = m\<rparr>"
proof (cases "driver_loop gtci s ([], None, None, 0) (drivers s)")
  case (Inl e)
  with assms show ?thesis by (simp add: compute_telemetry_def assemble_payload_def)
next
  case (Inr st)
  obtain dd a b m where st: "st = (dd, a, b, m)" by (cases st)
  from assms Inr st obtain gmin gmax where a: "a = Some gmin" and b: "b = Some gmax"
    by (cases a; cases b) (simp_all add: compute_telemetry_def assemble_payload_def)
  from assms Inr st a b have ne: "dd \<noteq> []"
    by (cases "dd = []") (simp_all add: compute_telemetry_def assemble_payload_def)
  from assms Inr st a b ne obtain colors where "get_driver_colors s = Inr colors"
    and "p = \<lparr>frames = build_frames (resample_all gmin (build_timeline gmin gmax) dd)
                  (build_timeline gmin gmax),
               driver_colors = colors,
               track_statuses = format_track_statuses gmin (track_status s),
               total_laps = m\<rparr>"
    by (cases "get_driver_colors s") (simp_all add: compute_telemetry_def assemble_payload_def Let_def)
  with that Inr st a b ne show ?thesis by blast
qed

lemma compute_frames:
  assumes "compute_telemetry gtci s = Inr p"
  shows "\<exists>rd tline. frames p = build_frames rd tline"
  using compute_Inr [OF assms] by (metis payload.select_convs(1))

text \<open>
  Claim C4. Every frame of a computed payload has at least one driver, each code once; the
  positions of its \<open>k\<close> drivers, in the order of the frame, are \<open>1, \<dots>, k\<close>; and a driver
  with a strictly greater cumulative distance has a strictly smaller position.
\<close>

theorem frame_positions:
  "compute_telemetry gtci s = Inr p \<and> f \<in> set (frames p) \<longrightarrow>
     frame_drivers f \<noteq> [] \<and> distinct (map fst (frame_drivers f)) \<and>
     map (\<lambda>e. car_position (snd e)) (frame_drivers f) =
       [1..<Suc (length (frame_drivers f))] \<and>
     (\<forall>a\<in>set (frame_drivers f). \<forall>b\<in>set (frame_drivers f).
        car_dist (snd b) < car_dist (snd a) \<longrightarrow>
        car_position (snd a) < car_position (snd b))"
proof
  assume asm: "compute_telemetry gtci s = Inr p \<and> f \<in> set (frames p)"
  then obtain rd tline where "frames p = build_frames rd tline"
    using compute_frames by blast
  with asm have "f \<in> set (build_frames rd tline)" by simp
  note R = frame_ranks [OF this]
  let ?ds = "frame_drivers f"
  have pos: "car_position (snd (?ds ! i)) = Suc i" if "i < length ?ds" for i
  proof -
    have "map (\<lambda>e. car_position (snd e)) ?ds ! i = [1..<Suc (length ?ds)] ! i"
      by (simp only: R(3))
    with that show ?thesis by (simp del: upt_Suc)
  qed
  have desc: "car_dist (snd (?ds ! j)) \<le> car_dist (snd (?ds ! i))"
    if "i \<le> j" "j < length ?ds" for i j
  proof -
    let ?m = "map (\<lambda>e. car_dist (snd e)) ?ds"
    have "rev ?m ! (length ?ds - Suc j) \<le> rev ?m ! (length ?ds - Suc i)"
      using R(4) that by (intro sorted_nth_mono) auto
    with that show ?thesis by (simp add: rev_nth)
  qed
  have order: "car_position (snd a) < car_position (snd b)"
    if "a \<in> set ?ds" "b \<in> set ?ds" "car_dist (snd b) < car_dist (snd a)" for a b
  proof -
    from that obtain i j where i: "i < length ?ds" "a = ?ds ! i"
      and j: "j < length ?ds" "b = ?ds ! j"
      by (auto simp: in_set_conv_nth)
    have "i < j"
    proof (rule ccontr)
      assume "\<not> i < j"
      then have "j \<le> i" by simp
      from desc [OF this i(1)] that(3) i j show False by simp
    qed
    with pos i j show ?thesis by simp
  qed
  from R(1) R(2) R(3) order
  show "frame_drivers f \<noteq> [] \<and> distinct (map fst (frame_drivers f)) \<and>
     map (\<lambda>e. car_position (snd e)) (frame_drivers f) =
       [1..<Suc (length (frame_drivers f))] \<and>
     (\<forall>a\<in>set (frame_drivers f). \<forall>b\<in>set (frame_drivers f).
        car_dist (snd b) < car_dist (snd a) \<longrightarrow>
        car_position (snd a) < car_position (snd b))"
    by blast
qed

lemma sess_two_frames:
  "isl (compute_telemetry gtci0 sess_two) = False"
  "map (\<lambda>f. map (\<lambda>e. (fst e, car_dist (snd e), car_position (snd e))) (frame_drivers f))
     (frames (projr (compute_telemetry gtci0 sess_two))) =
   [[(''HAM'', 1, 1), (''VER'', 0, 2)], [(''HAM'', 12, 1), (''VER'', 10, 2)]]"
  by code_simp+

theorem frame_positions_witness:
  "compute_telemetry gtci0 sess_two = Inr (projr (compute_telemetry gtci0 sess_two)) \<and>
   hd (frames (projr (compute_telemetry gtci0 sess_two)))
     \<in> set (frames (projr (compute_telemetry gtci0 sess_two))) \<and>
   map (\<lambda>e. (fst e, car_dist (snd e), car_position (snd e)))
     (frame_drivers (hd (frames (projr (compute_telemetry gtci0 sess_two))))) =
     [(''HAM'', 1, 1), (''VER'', 0, 2)] \<and>
   map (\<lambda>e. car_position (snd e))
     (frame_drivers (hd (frames (projr (compute_telemetry gtci0 sess_two))))) = [1..<Suc 2]"
proof -
  let ?p = "projr (compute_telemetry gtci0 sess_two)"
  have c: "compute_telemetry gtci0 sess_two = Inr ?p"
    using sess_two_frames(1) by (cases "compute_telemetry gtci0 sess_two") simp_all
  have ne: "frames ?p \<noteq> []" using sess_two_frames(2) by auto
  then have m: "hd (frames ?p) \<in> set (frames ?p)" by simp
  have h: "map (\<lambda>e. (fst e, car_dist (snd e), car_position (snd e)))
      (frame_drivers (hd (frames ?p))) = [(''HAM'', 1, 1), (''VER'', 0, 2)]"
    using sess_two_frames(2) ne by (cases "frames ?p") auto
  have "length (map (\<lambda>e. (fst e, car_dist (snd e), car_position (snd e)))
      (frame_drivers (hd (frames ?p)))) = 2"
    unfolding h by simp
  then have l: "length (frame_drivers (hd (frames ?p))) = 2" by simp
  show ?thesis
    using frame_positions [of gtci0 sess_two ?p "hd (frames ?p)"] c m h l by simp
qed

section \<open>Drivers without a usable lap\<close>

lemma lap_step_unusable: "\<not> usable_lap l \<Longrightarrow> lap_step gtci st l = Inr st"
  by (cases st) (auto simp: usable_lap_def lap_step_def split: option.splits)

lemma lap_loop_unusable:
  "filter usable_lap ls = [] \<Longrightarrow> lap_loop gtci st ls = Inr st"
  by (induction ls arbitrary: st) (auto simp: lap_step_unusable split: if_splits)

lemma no_usable_no_trace:
  assumes "filter usable_lap (driver_laps s d) = []"
  shows "driver_trace gtci s d = None" and "\<not> driver_raises gtci s d"
  using lap_loop_unusable [OF assms, of gtci "(empty_parts, 0)"]
  by (simp_all add: driver_trace_def driver_raises_def empty_parts_def)

lemma fold_upd_fst_subset: "fst ` set (fold (upd_step fst f) xs []) \<subseteq> fst ` set xs"
proof -
  have "{fst x | x. x \<in> set xs \<and> f x \<noteq> None} \<subseteq> fst ` set xs" by blast
  then show ?thesis by (simp only: fold_upd_keys list.set image_empty Un_empty_left)
qed

lemma resample_all_keys: "fst ` set (resample_all g tline dd) \<subseteq> fst ` set dd"
  unfolding resample_all_def resample_step_upd by (rule fold_upd_fst_subset)

lemma frame_keys:
  assumes "f \<in> set (build_frames rd tline)"
  shows "fst ` set (frame_drivers f) \<subseteq> fst ` set rd"
proof -
  from build_frames_mem [OF assms] obtain i where bf: "build_frame rd (i, tline ! i) = Some f"
    by blast
  let ?fd = "fold (gather_step i) rd []"
  have "map fst (frame_drivers f) = map (\<lambda>e. fst (snd e)) (enumerate 0 (snapshot_of ?fd))"
    by (simp add: build_frame_Some(3) [OF bf] comp_def)
  also have "\<dots> = map fst (snapshot_of ?fd)" by (rule map_enumerate_snd)
  finally have "set (map fst (frame_drivers f)) = set (map fst (snapshot_of ?fd))" by simp
  also have "\<dots> = fst ` set ?fd" by (simp add: snapshot_of_def)
  also have "\<dots> \<subseteq> fst ` set rd" unfolding gather_step_upd by (rule fold_upd_fst_subset)
  finally show ?thesis by simp
qed

lemma fold_maxlap:
  "fold (maxlap_step s) ds m =
     Max (set (m # concat (map (\<lambda>d. map LapNumber (driver_laps s d)) ds)))"
proof -
  have "fold (maxlap_step s) ds m =
      fold max (concat (map (\<lambda>d. map LapNumber (driver_laps s d)) ds)) m"
    by (induction ds arbitrary: m) (simp_all add: maxlap_step_def)
  then show ?thesis by (simp only: fold_max_Max)
qed

text \<open>
  Claim C7, as amended. If no driver number with code \<open>c\<close> has a usable lap, then none of
  them gets a trace, \<open>c\<close> is not a key of \<^verbatim>\<open>driver_data\<close>, and no frame of the payload has an
  entry for \<open>c\<close>. The payload's colours are the provider's mapping as a whole, and its lap
  count is the greatest lap number over all laps of all drivers, the excluded ones too.
\<close>

theorem unusable_driver_excluded:
  "compute_telemetry gtci s = Inr p \<and>
   (\<forall>d\<in>set (drivers s). driver_code s d = c \<longrightarrow> filter usable_lap (driver_laps s d) = []) \<longrightarrow>
     (\<forall>d\<in>set (drivers s). driver_code s d = c \<longrightarrow> driver_trace gtci s d = None) \<and>
     (\<forall>dd a b m. driver_loop gtci s ([], None, None, 0) (drivers s) = Inr (dd, a, b, m) \<longrightarrow>
        c \<notin> fst ` set dd) \<and>
     (\<forall>f\<in>set (frames p). c \<notin> fst ` set (frame_drivers f)) \<and>
     get_driver_colors s = Inr (driver_colors p) \<and>
     total_laps p =
       Max (set (0 # concat (map (\<lambda>d. map LapNumber (driver_laps s d)) (drivers s))))"
proof
  assume asm: "compute_telemetry gtci s = Inr p \<and>
   (\<forall>d\<in>set (drivers s). driver_code s d = c \<longrightarrow> filter usable_lap (driver_laps s d) = [])"
  then have comp: "compute_telemetry gtci s = Inr p" by (rule conjunct1)
  have nt: "\<forall>d\<in>set (drivers s). driver_code s d = c \<longrightarrow> driver_trace gtci s d = None"
  proof (intro ballI impI)
    fix d assume d: "d \<in> set (drivers s)" "driver_code s d = c"
    from asm have "\<forall>d\<in>set (drivers s). driver_code s d = c \<longrightarrow>
        filter usable_lap (driver_laps s d) = []"
      by (rule conjunct2)
    from this [rule_format, OF d] show "driver_trace gtci s d = None"
      by (rule no_usable_no_trace(1))
  qed
  have keys: "c \<notin> fst ` set dd"
    if "driver_loop gtci s ([], None, None, 0) (drivers s) = Inr (dd, a, b, m)" for dd a b m
  proof -
    have dd: "dd = fold (trace_step gtci s) (drivers s) []"
      using driver_loop_Inr(1) [OF that] .
    have eq: "fst ` set (fold (trace_step gtci s) (drivers s) []) =
        {driver_code s d | d. d \<in> set (drivers s) \<and> driver_trace gtci s d \<noteq> None}"
      unfolding trace_step_upd fold_upd_keys by simp
    show ?thesis
    proof
      assume "c \<in> fst ` set dd"
      then have "c \<in> {driver_code s d | d. d \<in> set (drivers s) \<and>
          driver_trace gtci s d \<noteq> None}"
        using eq dd by simp
      then obtain d where "d \<in> set (drivers s)" "driver_code s d = c"
          "driver_trace gtci s d \<noteq> None"
        by blast
      from nt [rule_format, OF this(1) this(2)] this(3) show False by (rule notE [rotated])
    qed
  qed
  from comp obtain dd gmin gmax m colors where
    loop: "driver_loop gtci s ([], None, None, 0) (drivers s) = Inr (dd, Some gmin, Some gmax, m)"
    and ne: "dd \<noteq> []"
    and col: "get_driver_colors s = Inr colors"
    and p: "p = \<lparr>frames = build_frames (resample_all gmin (build_timeline gmin gmax) dd)
                  (build_timeline gmin gmax),
               driver_colors = colors,
               track_statuses = format_track_statuses gmin (track_status s),
               total_laps = m\<rparr>"
    by (rule compute_Inr)
  have fr: "c \<notin> fst ` set (frame_drivers f)" if "f \<in> set (frames p)" for f
  proof -
    from that have "f \<in> set (build_frames (resample_all gmin (build_timeline gmin gmax) dd)
        (build_timeline gmin gmax))"
      by (simp add: p)
    from frame_keys [OF this] resample_all_keys [of gmin "build_timeline gmin gmax" dd]
    have "fst ` set (frame_drivers f) \<subseteq> fst ` set dd" by (rule subset_trans)
    with keys [OF loop] show ?thesis by (rule contra_subsetD [rotated])
  qed
  have tl: "total_laps p =
      Max (set (0 # concat (map (\<lambda>d. map LapNumber (driver_laps s d)) (drivers s))))"
    using driver_loop_Inr(4) [OF loop] by (simp add: p fold_maxlap)
  have dc: "get_driver_colors s = Inr (driver_colors p)" by (simp add: p col)
  show "(\<forall>d\<in>set (drivers s). driver_code s d = c \<longrightarrow> driver_trace gtci s d = None) \<and>
     (\<forall>dd a b m. driver_loop gtci s ([], None, None, 0) (drivers s) = Inr (dd, a, b, m) \<longrightarrow>
        c \<notin> fst ` set dd) \<and>
     (\<forall>f\<in>set (frames p). c \<notin> fst ` set (frame_drivers f)) \<and>
     get_driver_colors s = Inr (driver_colors p) \<and>
     total_laps p =
       Max (set (0 # concat (map (\<lambda>d. map LapNumber (driver_laps s d)) (drivers s))))"
  proof (intro conjI)
    show "\<forall>d\<in>set (drivers s). driver_code s d = c \<longrightarrow> driver_trace gtci s d = None"
      by (rule nt)
    show "\<forall>dd a b m. driver_loop gtci s ([], None, None, 0) (drivers s) = Inr (dd, a, b, m) \<longrightarrow>
        c \<notin> fst ` set dd"
      by (intro allI impI) (rule keys)
    show "\<forall>f\<in>set (frames p). c \<notin> fst ` set (frame_drivers f)"
      by (intro ballI) (rule fr)
    show "get_driver_colors s = Inr (driver_colors p)" by (rule dc)
    show "total_laps p =
       Max (set (0 # concat (map (\<lambda>d. map LapNumber (driver_laps s d)) (drivers s))))"
      by (rule tl)
  qed
qed

lemma sess_excluded_facts:
  "isl (compute_telemetry gtci0 sess_excluded) = False"
  "map fst (driver_colors (projr (compute_telemetry gtci0 sess_excluded))) = [''VER'', ''HAM'']"
  "total_laps (projr (compute_telemetry gtci0 sess_excluded)) = 7"
  "map (\<lambda>f. map fst (frame_drivers f)) (frames (projr (compute_telemetry gtci0 sess_excluded))) =
     [[''VER''], [''VER'']]"
  "filter usable_lap (driver_laps sess_excluded ''44'') = []"
  "driver_code sess_excluded ''44'' = ''HAM''"
  "driver_code sess_excluded ''1'' = ''VER''"
  "drivers sess_excluded = [''1'', ''44'']"
  by code_simp+

text \<open>
  In \<open>sess_excluded\<close> the only lap of driver 44 (HAM) has no telemetry. The payload still
  lists HAM among the colours, and its lap count 7 is that driver's lap number.
\<close>

theorem excluded_driver_counterexample:
  "filter usable_lap (driver_laps sess_excluded ''44'') = [] \<and>
   driver_code sess_excluded ''44'' = ''HAM'' \<and>
   isl (compute_telemetry gtci0 sess_excluded) = False \<and>
   ''HAM'' \<in> set (map fst (driver_colors (projr (compute_telemetry gtci0 sess_excluded)))) \<and>
   total_laps (projr (compute_telemetry gtci0 sess_excluded)) = 7 \<and>
   map LapNumber (driver_laps sess_excluded ''1'') = [1] \<and>
   map LapNumber (driver_laps sess_excluded ''44'') = [7]"
proof -
  have "map LapNumber (driver_laps sess_excluded ''1'') = [1]" by code_simp
  moreover have "map LapNumber (driver_laps sess_excluded ''44'') = [7]" by code_simp
  ultimately show ?thesis using sess_excluded_facts by simp
qed

theorem unusable_driver_excluded_witness:
  "compute_telemetry gtci0 sess_excluded = Inr (projr (compute_telemetry gtci0 sess_excluded)) \<and>
   filter usable_lap (driver_laps sess_excluded ''44'') = [] \<and>
   driver_code sess_excluded ''44'' = ''HAM'' \<and>
   hd (frames (projr (compute_telemetry gtci0 sess_excluded)))
     \<in> set (frames (projr (compute_telemetry gtci0 sess_excluded))) \<and>
   ''HAM'' \<notin> fst ` set (frame_drivers
     (hd (frames (projr (compute_telemetry gtci0 sess_excluded))))) \<and>
   driver_trace gtci0 sess_excluded ''44'' = None \<and>
   total_laps (projr (compute_telemetry gtci0 sess_excluded)) = 7"
proof -
  let ?p = "projr (compute_telemetry gtci0 sess_excluded)"
  have c: "compute_telemetry gtci0 sess_excluded = Inr ?p"
    using sess_excluded_facts(1) by (cases "compute_telemetry gtci0 sess_excluded") simp_all
  have h: "\<forall>d\<in>set (drivers sess_excluded). driver_code sess_excluded d = ''HAM'' \<longrightarrow>
      filter usable_lap (driver_laps sess_excluded d) = []"
    unfolding sess_excluded_facts(8) using sess_excluded_facts(5-7) by simp
  note T = unusable_driver_excluded [of gtci0 sess_excluded ?p "''HAM''", THEN mp,
      OF conjI [OF c h]]
  have ne: "frames ?p \<noteq> []" using sess_excluded_facts(4) by auto
  then have m: "hd (frames ?p) \<in> set (frames ?p)" by (rule hd_in_set)
  have d44: "''44'' \<in> set (drivers sess_excluded)"
    unfolding sess_excluded_facts(8) by simp
  show ?thesis
  proof (intro conjI)
    show "compute_telemetry gtci0 sess_excluded = Inr ?p" by (rule c)
    show "filter usable_lap (driver_laps sess_excluded ''44'') = []"
      by (rule sess_excluded_facts(5))
    show "driver_code sess_excluded ''44'' = ''HAM''" by (rule sess_excluded_facts(6))
    show "hd (frames ?p) \<in> set (frames ?p)" by (rule m)
    show "''HAM'' \<notin> fst ` set (frame_drivers (hd (frames ?p)))"
      by (rule T [THEN conjunct2, THEN conjunct2, THEN conjunct1, THEN bspec, OF m])
    show "driver_trace gtci0 sess_excluded ''44'' = None"
      by (rule T [THEN conjunct1, THEN bspec, OF d44, THEN mp, OF sess_excluded_facts(6)])
    show "total_laps ?p = 7" by (rule sess_excluded_facts(3))
  qed
qed

section \<open>The order in which the drivers are processed\<close>


lemma map_fst_map_filter:
  "map fst (List.map_filter (\<lambda>x. map_option (Pair (key x)) (f x)) xs) =
     map key (filter (\<lambda>x. f x \<noteq> None) xs)"
  by (induction xs) (auto simp: map_filter_simps split: option.splits)


lemma driver_code_drivers [simp]: "driver_code (s\<lparr>drivers := ds\<rparr>) = driver_code s"
  by (simp add: driver_code_def fun_eq_iff)

lemma driver_laps_drivers [simp]: "driver_laps (s\<lparr>drivers := ds\<rparr>) = driver_laps s"
  by (simp add: driver_laps_def fun_eq_iff)

lemma driver_trace_drivers [simp]: "driver_trace gtci (s\<lparr>drivers := ds\<rparr>) = driver_trace gtci s"
  by (simp add: driver_trace_def fun_eq_iff)

lemma driver_raises_drivers [simp]:
  "driver_raises gtci (s\<lparr>drivers := ds\<rparr>) = driver_raises gtci s"
  by (simp add: driver_raises_def fun_eq_iff)

lemma trace_step_drivers [simp]: "trace_step gtci (s\<lparr>drivers := ds\<rparr>) = trace_step gtci s"
  by (simp add: trace_step_def fun_eq_iff split: option.splits)

lemma tmin_step_drivers [simp]: "tmin_step gtci (s\<lparr>drivers := ds\<rparr>) = tmin_step gtci s"
  by (simp add: tmin_step_def fun_eq_iff)

lemma tmax_step_drivers [simp]: "tmax_step gtci (s\<lparr>drivers := ds\<rparr>) = tmax_step gtci s"
  by (simp add: tmax_step_def fun_eq_iff)

lemma maxlap_step_drivers [simp]: "maxlap_step (s\<lparr>drivers := ds\<rparr>) = maxlap_step s"
  by (simp add: maxlap_step_def fun_eq_iff)

lemma session_traces_drivers [simp]:
  "session_traces gtci (s\<lparr>drivers := ds\<rparr>) = session_traces gtci s"
  by (simp add: session_traces_def fun_eq_iff)

lemma assemble_payload_drivers [simp]:
  "assemble_payload (s\<lparr>drivers := ds\<rparr>) = assemble_payload s"
  by (simp add: assemble_payload_def get_driver_colors_def fun_eq_iff Let_def
      split: option.splits)




















end
